theory Spec2Isabelle
  imports Main "HOL-Library.Sublist"
begin

section \<open>Data model of \<open>src/index.js\<close>\<close>

text \<open>
  The action is one function \<open>main\<close>. It reads its inputs, resolves two tags, fetches the
  commits between them page by page, parses every commit message with the conventional
  commits parser, builds a list of Slack blocks and either posts the payload to Slack or
  sets it as the output \<open>payload\<close>.

  Strings are \<open>string\<close>; all string constants of the source are ASCII. The collaborators
  that are not code of this repository (the GraphQL tag query, the REST comparison, the
  conventional-commits parser, the Slack endpoint) are parameters of the model.
\<close>

text \<open>One row of the table \<open>types\<close> (lines 7-18).\<close>

record category_rule =
  rule_types :: "string list"
  rule_header :: string
  rule_icon :: string
  rule_relIssuePrefix :: "string option"

definition types :: "category_rule list" where
  "types =
    [\<lparr>rule_types = [''feat'', ''feature''], rule_header = ''New Features'',
        rule_icon = '':sparkles:'', rule_relIssuePrefix = None\<rparr>,
     \<lparr>rule_types = [''fix'', ''bugfix''], rule_header = ''Bug Fixes'',
        rule_icon = '':bug:'', rule_relIssuePrefix = Some ''fixes''\<rparr>,
     \<lparr>rule_types = [''perf''], rule_header = ''Performance Improvements'',
        rule_icon = '':zap:'', rule_relIssuePrefix = None\<rparr>,
     \<lparr>rule_types = [''refactor''], rule_header = ''Refactors'',
        rule_icon = '':recycle:'', rule_relIssuePrefix = None\<rparr>,
     \<lparr>rule_types = [''test'', ''tests''], rule_header = ''Tests'',
        rule_icon = '':white_check_mark:'', rule_relIssuePrefix = None\<rparr>,
     \<lparr>rule_types = [''build'', ''ci''], rule_header = ''Build System'',
        rule_icon = '':construction_worker:'', rule_relIssuePrefix = None\<rparr>,
     \<lparr>rule_types = [''doc'', ''docs''], rule_header = ''Documentation Changes'',
        rule_icon = '':memo:'', rule_relIssuePrefix = None\<rparr>,
     \<lparr>rule_types = [''style''], rule_header = ''Code Style Changes'',
        rule_icon = '':art:'', rule_relIssuePrefix = None\<rparr>,
     \<lparr>rule_types = [''chore''], rule_header = ''Chores'',
        rule_icon = '':wrench:'', rule_relIssuePrefix = None\<rparr>,
     \<lparr>rule_types = [''other''], rule_header = ''Other Changes'',
        rule_icon = '':flying_saucer:'', rule_relIssuePrefix = None\<rparr>]"

text \<open>
  A node of the tag query (\<open>name\<close>, \<open>target.oid\<close>). In pair mode the source builds
  \<open>{ name: fromTag }\<close>, an object without \<open>target\<close>.
\<close>

record tag_ref =
  tag_name :: string
  tag_oid :: "string option"

text \<open>
  A commit of the comparison response, with the fields \<open>main\<close> reads: \<open>sha\<close>,
  \<open>commit.message\<close>, \<open>html_url\<close>, \<open>author.login\<close> and \<open>author.html_url\<close>
  (the last two read with \<open>_.get\<close>, so they may be undefined).
\<close>

record raw_commit =
  rc_sha :: string
  rc_message :: string
  rc_html_url :: string
  rc_author_login :: "string option"
  rc_author_html_url :: "string option"

text \<open>
  The response of \<open>compareCommitsWithBasehead\<close>: \<open>data.total_commits\<close> and
  \<open>data.commits\<close>, both read with \<open>_.get\<close> and a default.
\<close>

record compare_response =
  data_total_commits :: "int option"
  data_commits :: "raw_commit list option"

text \<open>The arguments of one call of \<open>compareCommitsWithBasehead\<close> (owner and repo are fixed).\<close>

record page_request =
  req_basehead :: string
  req_page :: nat
  req_per_page :: nat

record cc_note =
  note_title :: string
  note_text :: string

text \<open>
  The fields that \<open>main\<close> reads of the object returned by
  \<open>cc.toConventionalChangelogFormat(cc.parser(message))\<close>.
\<close>

record cc_ast =
  ast_type :: string
  ast_scope :: "string option"
  ast_subject :: string
  ast_notes :: "cc_note list"

text \<open>
  An element of \<open>commitsParsed\<close>. The object pushed in the \<open>catch\<close> branch has neither
  \<open>scope\<close> nor \<open>notes\<close>; both are \<open>None\<close> there.
\<close>

record parsed_commit =
  pc_type :: string
  pc_scope :: "string option"
  pc_subject :: string
  pc_notes :: "cc_note list option"
  pc_sha :: string
  pc_url :: string
  pc_author :: "string option"
  pc_authorUrl :: "string option"

text \<open>An element of \<open>breakingChanges\<close>.\<close>

record breaking_change =
  bc_sha :: string
  bc_url :: string
  bc_subject :: string
  bc_author :: "string option"
  bc_authorUrl :: "string option"
  bc_text :: string

text \<open>
  The three shapes pushed to \<open>slackBlocks\<close>: \<open>{type: "header", text: {type: "plain_text",
  text, emoji: true}}\<close>, \<open>{type: "section", text: {type: "mrkdwn", text}}\<close> and
  \<open>{type: "divider"}\<close>.
\<close>

datatype block = Header string | Section string | Divider

record payload =
  payload_text :: string
  payload_blocks :: "block list"

text \<open>
  The calls of \<open>core.setFailed\<close>, one constructor per message:
  line 39 and line 89 (\<open>AmbiguousRangeInput\<close>), line 68 (\<open>NoLatestTag\<close>), line 71
  (\<open>NoPreviousTag\<close>), line 75 (\<open>TagMismatch\<close>), line 117 (\<open>NoCommitsInRange\<close>) and
  line 273 (\<open>DeliveryFailure\<close>, with the response body).
\<close>

datatype error =
    AmbiguousRangeInput
  | NoLatestTag
  | NoPreviousTag
  | TagMismatch
  | NoCommitsInRange
  | DeliveryFailure string

text \<open>
  How a run ends: \<open>core.setFailed\<close> and return; the payload posted once per channel id
  (with the failures reported for the responses whose status is not 200); or the payload set
  as the output \<open>payload\<close>. The output is the payload itself: \<open>JSON.stringify\<close> is not
  modelled.
\<close>

datatype outcome =
    Failed error
  | Delivered "(string \<times> payload) list" "error list"
  | Output payload

text \<open>The values of \<open>core.getInput\<close> and \<open>core.getBooleanInput\<close>.\<close>

record inputs =
  in_token :: string
  in_tag :: string
  in_fromTag :: string
  in_toTag :: string
  in_title :: string
  in_slackBotToken :: string
  in_slackChannelId :: string
  in_excludeTypes :: string
  in_includeInvalidCommits :: bool
  in_reverseOrder :: bool

text \<open>
  The collaborators: the nodes returned by the tag query (at most the two most recent tags,
  most recent first), the comparison endpoint (basehead, page, page size), the parser
  (\<open>None\<close> when it throws) and the Slack endpoint (bot token, channel, payload to status and
  body).
\<close>

record env =
  env_tags :: "tag_ref list"
  env_compareCommitsWithBasehead :: "string \<Rightarrow> nat \<Rightarrow> nat \<Rightarrow> compare_response"
  env_parser :: "string \<Rightarrow> cc_ast option"
  env_postMessage :: "string \<Rightarrow> string \<Rightarrow> payload \<Rightarrow> int \<times> string"

section \<open>String helpers of JavaScript\<close>

text \<open>\<open>s.split(',')\<close>: the pieces between the commas; never an empty list.\<close>

fun split_comma :: "string \<Rightarrow> string list" where
  "split_comma [] = [[]]"
| "split_comma (c # cs) =
     (if c = CHR '','' then [] # split_comma cs
      else (case split_comma cs of
              [] \<Rightarrow> [[c]]
            | w # ws \<Rightarrow> (c # w) # ws))"

text \<open>\<open>s.trim()\<close>, for the ASCII white space characters (tab, LF, VT, FF, CR, space).\<close>

definition is_space :: "char \<Rightarrow> bool" where
  "is_space c = (c \<in> set [CHR 0x09, CHR 0x0A, CHR 0x0B, CHR 0x0C, CHR 0x0D, CHR 0x20])"

definition trim :: "string \<Rightarrow> string" where
  "trim s = rev (dropWhile is_space (rev (dropWhile is_space s)))"

text \<open>\<open>s.toLowerCase()\<close>, for the ASCII letters.\<close>

definition lower_char :: "char \<Rightarrow> char" where
  "lower_char c =
     (let n = (of_char c :: nat) in if 65 \<le> n \<and> n \<le> 90 then char_of (n + 32) else c)"

definition toLowerCase :: "string \<Rightarrow> string" where
  "toLowerCase s = map lower_char s"

text \<open>JavaScript truthiness of a string that may be undefined or null.\<close>

definition truthy :: "string option \<Rightarrow> bool" where
  "truthy s = (case s of None \<Rightarrow> False | Some x \<Rightarrow> x \<noteq> [])"

text \<open>\<open>_.intersection(xs, ys)\<close>: the distinct elements of \<open>xs\<close> that occur in \<open>ys\<close>.\<close>

fun intersection :: "'a list \<Rightarrow> 'a list \<Rightarrow> 'a list" where
  "intersection [] ys = []"
| "intersection (x # xs) ys =
     (if List.member ys x then x # filter (\<lambda>y. y \<noteq> x) (intersection xs ys)
      else intersection xs ys)"

text \<open>\<open>_.get(xs, '[i]')\<close> on an array.\<close>

fun get_index :: "'a list \<Rightarrow> nat \<Rightarrow> 'a option" where
  "get_index [] i = None"
| "get_index (x # xs) 0 = Some x"
| "get_index (x # xs) (Suc i) = get_index xs i"

section \<open>Range resolution (lines 35-90)\<close>

definition resolve_range ::
  "string \<Rightarrow> string \<Rightarrow> string \<Rightarrow> tag_ref list \<Rightarrow> error + (tag_ref \<times> tag_ref)" where
  "resolve_range tag fromTag toTag tagsRaw =
     (if tag \<noteq> [] \<and> (fromTag \<noteq> [] \<or> toTag \<noteq> []) then Inl AmbiguousRangeInput
      else if tag \<noteq> [] then
        (case get_index tagsRaw 0 of
           None \<Rightarrow> Inl NoLatestTag
         | Some latestTag \<Rightarrow>
             (case get_index tagsRaw 1 of
                None \<Rightarrow> Inl NoPreviousTag
              | Some previousTag \<Rightarrow>
                  if tag_name latestTag \<noteq> tag then Inl TagMismatch
                  else Inr (latestTag, previousTag)))
      else if fromTag \<noteq> [] \<and> toTag \<noteq> [] then
        Inr (\<lparr>tag_name = fromTag, tag_oid = None\<rparr>, \<lparr>tag_name = toTag, tag_oid = None\<rparr>)
      else Inl AmbiguousRangeInput)"

section \<open>Fetching the commits (lines 94-114)\<close>

text \<open>
  The \<open>do ... while (hasMoreCommits)\<close> loop. Nothing bounds the number of rounds: a
  collaborator that keeps declaring more commits than it returns keeps the loop running, so
  the loop is a partial function and \<open>None\<close> stands for a run that never leaves it. The
  requests issued are recorded beside the accumulated commits.
\<close>

partial_function (option) fetch_loop ::
  "(string \<Rightarrow> nat \<Rightarrow> nat \<Rightarrow> compare_response) \<Rightarrow> string \<Rightarrow> nat \<Rightarrow> raw_commit list \<Rightarrow>
   page_request list \<Rightarrow> (raw_commit list \<times> page_request list) option" where
  "fetch_loop compareCommits basehead curPage commits reqs =
     (let curPage' = curPage + 1;
          commitsRaw = compareCommits basehead curPage' 100;
          reqs' = reqs @ [\<lparr>req_basehead = basehead, req_page = curPage', req_per_page = 100\<rparr>];
          totalCommits = (case data_total_commits commitsRaw of None \<Rightarrow> 0 | Some t \<Rightarrow> t);
          rangeCommits = (case data_commits commitsRaw of None \<Rightarrow> [] | Some cs \<Rightarrow> cs);
          commits' = commits @ rangeCommits
      in if (int curPage' - 1) * 100 + int (length rangeCommits) < totalCommits
         then fetch_loop compareCommits basehead curPage' commits' reqs'
         else Some (commits', reqs'))"

definition fetch_commits ::
  "(string \<Rightarrow> nat \<Rightarrow> nat \<Rightarrow> compare_response) \<Rightarrow> tag_ref \<Rightarrow> tag_ref \<Rightarrow>
   (raw_commit list \<times> page_request list) option" where
  "fetch_commits compareCommits latestTag previousTag =
     fetch_loop compareCommits (tag_name previousTag @ ''...'' @ tag_name latestTag) 0 [] []"

section \<open>Parsing the commits (lines 122-163)\<close>

text \<open>The inner loop over \<open>cAst.notes\<close>.\<close>

fun notes_loop ::
  "raw_commit \<Rightarrow> cc_ast \<Rightarrow> cc_note list \<Rightarrow> breaking_change list \<Rightarrow> breaking_change list" where
  "notes_loop commit cAst [] breakingChanges = breakingChanges"
| "notes_loop commit cAst (n # ns) breakingChanges =
     notes_loop commit cAst ns
       (if note_title n = ''BREAKING CHANGE''
        then breakingChanges @
          [\<lparr>bc_sha = rc_sha commit, bc_url = rc_html_url commit, bc_subject = ast_subject cAst,
            bc_author = rc_author_login commit, bc_authorUrl = rc_author_html_url commit,
            bc_text = note_text n\<rparr>]
        else breakingChanges)"

text \<open>
  The loop over \<open>commits\<close>, with \<open>commitsParsed\<close> and \<open>breakingChanges\<close> as its state. The
  \<open>try\<close> block throws only where the parser does: the object it returns has a string
  \<open>type\<close> and an array \<open>notes\<close>.
\<close>

fun parse_loop ::
  "(string \<Rightarrow> cc_ast option) \<Rightarrow> bool \<Rightarrow> raw_commit list \<Rightarrow>
   parsed_commit list \<times> breaking_change list \<Rightarrow> parsed_commit list \<times> breaking_change list" where
  "parse_loop parser includeInvalidCommits [] st = st"
| "parse_loop parser includeInvalidCommits (commit # commits) (commitsParsed, breakingChanges) =
     (case parser (rc_message commit) of
        Some cAst \<Rightarrow>
          parse_loop parser includeInvalidCommits commits
            (commitsParsed @
               [\<lparr>pc_type = toLowerCase (ast_type cAst), pc_scope = ast_scope cAst,
                 pc_subject = ast_subject cAst, pc_notes = Some (ast_notes cAst),
                 pc_sha = rc_sha commit, pc_url = rc_html_url commit,
                 pc_author = rc_author_login commit,
                 pc_authorUrl = rc_author_html_url commit\<rparr>],
             notes_loop commit cAst (ast_notes cAst) breakingChanges)
      | None \<Rightarrow>
          if includeInvalidCommits then
            parse_loop parser includeInvalidCommits commits
              (commitsParsed @
                 [\<lparr>pc_type = ''other'', pc_scope = None, pc_subject = rc_message commit,
                   pc_notes = None, pc_sha = rc_sha commit, pc_url = rc_html_url commit,
                   pc_author = rc_author_login commit,
                   pc_authorUrl = rc_author_html_url commit\<rparr>],
               breakingChanges)
          else parse_loop parser includeInvalidCommits commits (commitsParsed, breakingChanges))"

section \<open>Building the blocks (lines 175-253)\<close>

text \<open>The text of the section pushed for one breaking change (line 202).\<close>

definition breaking_text :: "breaking_change \<Rightarrow> string" where
  "breaking_text breakChange =
     (if truthy (bc_author breakChange)
      then bc_subject breakChange @ '' *(by @'' @ the (bc_author breakChange) @ '')*''
      else bc_subject breakChange)"

text \<open>The text of the section pushed for one commit of a category (lines 237-238).\<close>

definition commit_text :: "parsed_commit \<Rightarrow> string" where
  "commit_text commit =
     (let slackScope = (if truthy (pc_scope commit) then ''*'' @ the (pc_scope commit) @ ''*: ''
                        else [])
      in if truthy (pc_author commit)
         then slackScope @ pc_subject commit @ '' by '' @ the (pc_author commit) @ '' '' @
              take 7 (pc_sha commit)
         else slackScope @ pc_subject commit @ '' '' @ take 7 (pc_sha commit))"

text \<open>The text of the section that opens a category (line 232).\<close>

definition category_text :: "category_rule \<Rightarrow> string" where
  "category_text ty = rule_icon ty @ '' *'' @ rule_header ty @ ''*''"

text \<open>The loop over \<open>types\<close> (lines 214-248), with \<open>slackBlocks\<close> and \<open>idx\<close> as its state.\<close>

fun types_loop ::
  "category_rule list \<Rightarrow> parsed_commit list \<Rightarrow> string list \<Rightarrow> block list \<times> nat \<Rightarrow>
   block list \<times> nat" where
  "types_loop [] commitsParsed excludeTypes st = st"
| "types_loop (ty # tys) commitsParsed excludeTypes (slackBlocks, idx) =
     (if length (intersection (rule_types ty) excludeTypes) > 0
      then types_loop tys commitsParsed excludeTypes (slackBlocks, idx)
      else
        (let matchingCommits = filter (\<lambda>c. List.member (rule_types ty) (pc_type c)) commitsParsed
         in if length matchingCommits < 1
            then types_loop tys commitsParsed excludeTypes (slackBlocks, idx)
            else types_loop tys commitsParsed excludeTypes
                   (slackBlocks @ (if idx > 0 then [Divider] else []) @
                      [Section (category_text ty)] @
                      map (\<lambda>commit. Section (commit_text commit)) matchingCommits,
                    idx + 1)))"

definition build_blocks ::
  "string \<Rightarrow> breaking_change list \<Rightarrow> parsed_commit list \<Rightarrow> string list \<Rightarrow> block list" where
  "build_blocks title breakingChanges commitsParsed excludeTypes =
     (let slackBlocks0 = (if title \<noteq> [] then [Header title] else []);
          st = (if length breakingChanges > 0
                then (slackBlocks0 @ [Section '':boom: *BREAKING CHANGES*''] @
                        map (\<lambda>breakChange. Section (breaking_text breakChange)) breakingChanges,
                      Suc 0)
                else (slackBlocks0, 0))
      in fst (types_loop types commitsParsed excludeTypes st))"

text \<open>Lines 120-253: from the fetched commits to the payload.\<close>

definition build_payload ::
  "(string \<Rightarrow> cc_ast option) \<Rightarrow> bool \<Rightarrow> bool \<Rightarrow> string \<Rightarrow> string list \<Rightarrow> raw_commit list \<Rightarrow>
   payload" where
  "build_payload parser includeInvalidCommits reverseOrder title excludeTypes commits =
     (let parsed = parse_loop parser includeInvalidCommits commits ([], []);
          breakingChanges = snd parsed;
          commitsParsed = (if reverseOrder then rev (fst parsed) else fst parsed)
      in \<lparr>payload_text = title,
          payload_blocks = build_blocks title breakingChanges commitsParsed excludeTypes\<rparr>)"

section \<open>Delivery (lines 257-280) and the whole run\<close>

text \<open>
  \<open>Promise.all\<close> over the channel ids: one post per channel id, and one call of
  \<open>core.setFailed\<close> with the response body for each response whose status is not 200. The
  posts are listed in the order of the channel ids.
\<close>

definition deliver ::
  "(string \<Rightarrow> string \<Rightarrow> payload \<Rightarrow> int \<times> string) \<Rightarrow> string \<Rightarrow> string list \<Rightarrow> payload \<Rightarrow> outcome"
  where
  "deliver postMessage slackBotToken slackChannelIds p =
     Delivered (map (\<lambda>channelId. (channelId, p)) slackChannelIds)
       (map (\<lambda>channelId. DeliveryFailure (snd (postMessage slackBotToken channelId p)))
          (filter (\<lambda>channelId. fst (postMessage slackBotToken channelId p) \<noteq> 200)
             slackChannelIds))"

text \<open>
  The function \<open>main\<close>. The result is \<open>None\<close> when the fetch loop never returns.
\<close>

definition main :: "inputs \<Rightarrow> env \<Rightarrow> outcome option" where
  "main i e =
     (let slackChannelIds = map trim (split_comma (in_slackChannelId i));
          excludeTypes = map trim (split_comma (in_excludeTypes i))
      in case resolve_range (in_tag i) (in_fromTag i) (in_toTag i) (env_tags e) of
           Inl err \<Rightarrow> Some (Failed err)
         | Inr (latestTag, previousTag) \<Rightarrow>
             (case fetch_commits (env_compareCommitsWithBasehead e) latestTag previousTag of
                None \<Rightarrow> None
              | Some (commits, reqs) \<Rightarrow>
                  if length commits < 1 then Some (Failed NoCommitsInRange)
                  else
                    (let p = build_payload (env_parser e) (in_includeInvalidCommits i)
                               (in_reverseOrder i) (in_title i) excludeTypes commits
                     in if length (in_slackBotToken i) > 0 \<and> length slackChannelIds > 0
                        then Some (deliver (env_postMessage e) (in_slackBotToken i)
                                     slackChannelIds p)
                        else Some (Output p))))"

section \<open>The rendering contract, for comparison with the loops\<close>

text \<open>The optional header block.\<close>

definition title_blocks :: "string \<Rightarrow> block list" where
  "title_blocks title = (if title = [] then [] else [Header title])"

text \<open>The breaking-changes group: nothing, or the announcing section and one section each.\<close>

definition breaking_blocks :: "breaking_change list \<Rightarrow> block list" where
  "breaking_blocks bcs =
     (if bcs = [] then []
      else Section '':boom: *BREAKING CHANGES*'' # map (\<lambda>b. Section (breaking_text b)) bcs)"

text \<open>A rule is excluded when one of its aliases is among the excluded types.\<close>

definition excluded :: "string list \<Rightarrow> category_rule \<Rightarrow> bool" where
  "excluded excl r = list_ex (\<lambda>t. List.member excl t) (rule_types r)"

text \<open>The commits listed under a rule.\<close>

definition matching :: "category_rule \<Rightarrow> parsed_commit list \<Rightarrow> parsed_commit list" where
  "matching r cps = filter (\<lambda>c. List.member (rule_types r) (pc_type c)) cps"

text \<open>The rules that are rendered, in the order of the rule list.\<close>

definition rendered_rules ::
  "category_rule list \<Rightarrow> parsed_commit list \<Rightarrow> string list \<Rightarrow> category_rule list" where
  "rendered_rules rs cps excl = filter (\<lambda>r. \<not> excluded excl r \<and> matching r cps \<noteq> []) rs"

text \<open>
  Groups of blocks joined by dividers; the flag says whether a group has been rendered
  before the first of these.
\<close>

fun join_groups :: "bool \<Rightarrow> block list list \<Rightarrow> block list" where
  "join_groups sep [] = []"
| "join_groups sep (g # gs) = (if sep then [Divider] else []) @ g @ join_groups True gs"

text \<open>What one commit contributes to \<open>commitsParsed\<close> and to \<open>breakingChanges\<close>.\<close>

definition fallback_commit :: "raw_commit \<Rightarrow> parsed_commit" where
  "fallback_commit c =
     \<lparr>pc_type = ''other'', pc_scope = None, pc_subject = rc_message c, pc_notes = None,
      pc_sha = rc_sha c, pc_url = rc_html_url c, pc_author = rc_author_login c,
      pc_authorUrl = rc_author_html_url c\<rparr>"

definition parsed_of :: "(string \<Rightarrow> cc_ast option) \<Rightarrow> bool \<Rightarrow> raw_commit \<Rightarrow> parsed_commit list"
  where
  "parsed_of parser inc c =
     (case parser (rc_message c) of
        Some a \<Rightarrow>
          [\<lparr>pc_type = toLowerCase (ast_type a), pc_scope = ast_scope a,
            pc_subject = ast_subject a, pc_notes = Some (ast_notes a), pc_sha = rc_sha c,
            pc_url = rc_html_url c, pc_author = rc_author_login c,
            pc_authorUrl = rc_author_html_url c\<rparr>]
      | None \<Rightarrow> if inc then [fallback_commit c] else [])"

definition breaking_of :: "(string \<Rightarrow> cc_ast option) \<Rightarrow> raw_commit \<Rightarrow> breaking_change list" where
  "breaking_of parser c =
     (case parser (rc_message c) of
        None \<Rightarrow> []
      | Some a \<Rightarrow>
          map (\<lambda>n. \<lparr>bc_sha = rc_sha c, bc_url = rc_html_url c, bc_subject = ast_subject a,
                    bc_author = rc_author_login c, bc_authorUrl = rc_author_html_url c,
                    bc_text = note_text n\<rparr>)
            (filter (\<lambda>n. note_title n = ''BREAKING CHANGE'') (ast_notes a)))"

text \<open>
  A comparison endpoint that holds the commits \<open>cs\<close> of a range: every page declares
  \<open>length cs\<close> as the total and returns the commits of that page.
\<close>

definition paged :: "raw_commit list \<Rightarrow> string \<Rightarrow> nat \<Rightarrow> nat \<Rightarrow> compare_response" where
  "paged cs basehead page per_page =
     \<lparr>data_total_commits = Some (int (length cs)),
      data_commits = Some (take per_page (drop ((page - 1) * per_page) cs))\<rparr>"

text \<open>The request for page \<open>p\<close> of a comparison, as \<open>fetch_loop\<close> records it.\<close>

definition request :: "string \<Rightarrow> nat \<Rightarrow> page_request" where
  "request basehead p = \<lparr>req_basehead = basehead, req_page = p, req_per_page = 100\<rparr>"

text \<open>\<open>ceil (t / n)\<close> on natural numbers.\<close>

definition ceil_div :: "nat \<Rightarrow> nat \<Rightarrow> nat" where
  "ceil_div t n = (t + n - 1) div n"

text \<open>The blocks of one rendered category: its title, then one section per commit.\<close>

definition category_group :: "parsed_commit list \<Rightarrow> category_rule \<Rightarrow> block list" where
  "category_group cps r =
     Section (category_text r) # map (\<lambda>c. Section (commit_text c)) (matching r cps)"

definition parsed_commits ::
  "(string \<Rightarrow> cc_ast option) \<Rightarrow> bool \<Rightarrow> raw_commit list \<Rightarrow> parsed_commit list" where
  "parsed_commits parser inc cs = concat (map (parsed_of parser inc) cs)"

definition breaking_changes ::
  "(string \<Rightarrow> cc_ast option) \<Rightarrow> raw_commit list \<Rightarrow> breaking_change list" where
  "breaking_changes parser cs = concat (map (breaking_of parser) cs)"

text \<open>The commits as the category loop sees them: reversed when \<open>reverseOrder\<close> is set.\<close>

definition listed_commits ::
  "(string \<Rightarrow> cc_ast option) \<Rightarrow> bool \<Rightarrow> bool \<Rightarrow> raw_commit list \<Rightarrow> parsed_commit list" where
  "listed_commits parser inc reverseOrder cs =
     (if reverseOrder then rev (parsed_commits parser inc cs) else parsed_commits parser inc cs)"

text \<open>
  A block list in which every divider is directly followed by the title section of a
  category of the table.
\<close>

fun well_divided :: "block list \<Rightarrow> bool" where
  "well_divided [] = True"
| "well_divided (Divider # bs) =
     (case bs of
        Section t # _ \<Rightarrow> list_ex (\<lambda>r. t = category_text r) types \<and> well_divided bs
      | _ \<Rightarrow> False)"
| "well_divided (b # bs) = well_divided bs"

section \<open>Sample data\<close>

definition commit_a :: raw_commit where
  "commit_a =
     \<lparr>rc_sha = ''abc1234aaaaaaaaaaaaaaaaaaaaaaaaaaaaaaaaa'', rc_message = ''fix: a'',
      rc_html_url = ''https://github.com/o/r/commit/abc1234'',
      rc_author_login = Some ''alice'', rc_author_html_url = Some ''https://github.com/alice''\<rparr>"

definition commit_b :: raw_commit where
  "commit_b =
     \<lparr>rc_sha = ''def5678bbbbbbbbbbbbbbbbbbbbbbbbbbbbbbbbb'', rc_message = ''feat: b'',
      rc_html_url = ''https://github.com/o/r/commit/def5678'',
      rc_author_login = Some ''bob'', rc_author_html_url = Some ''https://github.com/bob''\<rparr>"

definition commit_c :: raw_commit where
  "commit_c =
     \<lparr>rc_sha = ''0123456ccccccccccccccccccccccccccccccccc'', rc_message = ''chore: drop v1'',
      rc_html_url = ''https://github.com/o/r/commit/0123456'',
      rc_author_login = Some ''carol'', rc_author_html_url = None\<rparr>"

definition commit_d :: raw_commit where
  "commit_d =
     \<lparr>rc_sha = ''89abcdeeeeeeeeeeeeeeeeeeeeeeeeeeeeeeeeeee'', rc_message = ''Feat(api): d'',
      rc_html_url = ''https://github.com/o/r/commit/89abcde'',
      rc_author_login = Some ''dave'', rc_author_html_url = Some ''https://github.com/dave''\<rparr>"

definition commit_w :: raw_commit where
  "commit_w =
     \<lparr>rc_sha = ''7654321ddddddddddddddddddddddddddddddddd'', rc_message = ''wip'',
      rc_html_url = ''https://github.com/o/r/commit/7654321'',
      rc_author_login = None, rc_author_html_url = None\<rparr>"

text \<open>
  A stand-in for the parser on the sample messages: what the conventional-commits parser
  returns for them, and \<open>None\<close> (it throws) on every other message.
\<close>

definition sample_parser :: "string \<Rightarrow> cc_ast option" where
  "sample_parser m =
     (if m = ''fix: a'' then
        Some \<lparr>ast_type = ''fix'', ast_scope = None, ast_subject = ''a'', ast_notes = []\<rparr>
      else if m = ''feat: b'' then
        Some \<lparr>ast_type = ''feat'', ast_scope = None, ast_subject = ''b'', ast_notes = []\<rparr>
      else if m = ''Feat(api): d'' then
        Some \<lparr>ast_type = ''Feat'', ast_scope = Some ''api'', ast_subject = ''d'', ast_notes = []\<rparr>
      else if m = ''chore: drop v1'' then
        Some \<lparr>ast_type = ''chore'', ast_scope = None, ast_subject = ''drop v1'',
              ast_notes = [\<lparr>note_title = ''BREAKING CHANGE'', note_text = ''removes v1 API''\<rparr>]\<rparr>
      else None)"

definition tag_v1 :: tag_ref where
  "tag_v1 = \<lparr>tag_name = ''v1'', tag_oid = None\<rparr>"

definition tag_v2 :: tag_ref where
  "tag_v2 = \<lparr>tag_name = ''v2'', tag_oid = None\<rparr>"

text \<open>Inputs that select the range by \<open>fromTag\<close> and \<open>toTag\<close> and configure no delivery.\<close>

definition sample_inputs :: inputs where
  "sample_inputs =
     \<lparr>in_token = ''ghp_token'', in_tag = [], in_fromTag = ''v2'', in_toTag = ''v1'',
      in_title = ''Release'', in_slackBotToken = [], in_slackChannelId = [],
      in_excludeTypes = [], in_includeInvalidCommits = False, in_reverseOrder = False\<rparr>"

text \<open>
  Collaborators: a comparison endpoint that holds the given commits, the stand-in parser
  and a Slack endpoint that answers every post with status 200.
\<close>

definition sample_env :: "raw_commit list \<Rightarrow> env" where
  "sample_env cs =
     \<lparr>env_tags = [], env_compareCommitsWithBasehead = paged cs, env_parser = sample_parser,
      env_postMessage = (\<lambda>token channel p. (200, ''ok''))\<rparr>"

section \<open>Range resolution\<close>

lemma get_index_nth: "get_index xs i = (if i < length xs then Some (xs ! i) else None)"
  by (induction xs i rule: get_index.induct) auto

text \<open>
  Claim C9. The resolver fails with \<open>AmbiguousRangeInput\<close> when neither form is given
  (no tag, and not both of fromTag and toTag) and when a tag is given together with fromTag
  or toTag. With a tag alone it fails with \<open>NoLatestTag\<close> when the query returns no tag,
  with \<open>NoPreviousTag\<close> when it returns one tag, with \<open>TagMismatch\<close> when the name of
  the first tag differs from the given tag, and otherwise yields the first tag as latest and
  the second as previous. With fromTag and toTag alone it yields latest = fromTag and
  previous = toTag, whatever the query would return.
\<close>

theorem resolve_range_cases:
  "(tag = [] \<and> (fromTag = [] \<or> toTag = []) \<longrightarrow>
      resolve_range tag fromTag toTag tagsRaw = Inl AmbiguousRangeInput) \<and>
   (tag \<noteq> [] \<and> (fromTag \<noteq> [] \<or> toTag \<noteq> []) \<longrightarrow>
      resolve_range tag fromTag toTag tagsRaw = Inl AmbiguousRangeInput) \<and>
   (tag \<noteq> [] \<and> fromTag = [] \<and> toTag = [] \<longrightarrow>
      (case tagsRaw of
         [] \<Rightarrow> resolve_range tag fromTag toTag tagsRaw = Inl NoLatestTag
       | [t] \<Rightarrow> resolve_range tag fromTag toTag tagsRaw = Inl NoPreviousTag
       | latest # previous # ts \<Rightarrow>
           resolve_range tag fromTag toTag tagsRaw =
             (if tag_name latest \<noteq> tag then Inl TagMismatch else Inr (latest, previous)))) \<and>
   (tag = [] \<and> fromTag \<noteq> [] \<and> toTag \<noteq> [] \<longrightarrow>
      resolve_range tag fromTag toTag tagsRaw =
        Inr (\<lparr>tag_name = fromTag, tag_oid = None\<rparr>, \<lparr>tag_name = toTag, tag_oid = None\<rparr>))"
  by (auto simp: resolve_range_def split: list.splits)

theorem resolve_range_cases_witness:
  "resolve_range ''v2'' [] []
     [\<lparr>tag_name = ''v2'', tag_oid = Some ''a2''\<rparr>, \<lparr>tag_name = ''v1'', tag_oid = Some ''a1''\<rparr>] =
     Inr (\<lparr>tag_name = ''v2'', tag_oid = Some ''a2''\<rparr>, \<lparr>tag_name = ''v1'', tag_oid = Some ''a1''\<rparr>) \<and>
   resolve_range ''v3'' [] []
     [\<lparr>tag_name = ''v2'', tag_oid = Some ''a2''\<rparr>, \<lparr>tag_name = ''v1'', tag_oid = Some ''a1''\<rparr>] =
     Inl TagMismatch \<and>
   resolve_range ''v2'' [] [] [\<lparr>tag_name = ''v2'', tag_oid = Some ''a2''\<rparr>] = Inl NoPreviousTag \<and>
   resolve_range ''v2'' [] [] [] = Inl NoLatestTag \<and>
   resolve_range [] ''v2'' ''v1'' [] =
     Inr (\<lparr>tag_name = ''v2'', tag_oid = None\<rparr>, \<lparr>tag_name = ''v1'', tag_oid = None\<rparr>) \<and>
   resolve_range [] [] [] [] = Inl AmbiguousRangeInput \<and>
   resolve_range [] ''v2'' [] [] = Inl AmbiguousRangeInput \<and>
   resolve_range ''v2'' ''v2'' ''v1'' [] = Inl AmbiguousRangeInput"
  using
    resolve_range_cases [of "''v2''" "[]" "[]"
      "[\<lparr>tag_name = ''v2'', tag_oid = Some ''a2''\<rparr>, \<lparr>tag_name = ''v1'', tag_oid = Some ''a1''\<rparr>]"]
    resolve_range_cases [of "''v3''" "[]" "[]"
      "[\<lparr>tag_name = ''v2'', tag_oid = Some ''a2''\<rparr>, \<lparr>tag_name = ''v1'', tag_oid = Some ''a1''\<rparr>]"]
    resolve_range_cases [of "''v2''" "[]" "[]" "[\<lparr>tag_name = ''v2'', tag_oid = Some ''a2''\<rparr>]"]
    resolve_range_cases [of "''v2''" "[]" "[]" "[]"]
    resolve_range_cases [of "[]" "''v2''" "''v1''" "[]"]
    resolve_range_cases [of "[]" "[]" "[]" "[]"]
    resolve_range_cases [of "[]" "''v2''" "[]" "[]"]
    resolve_range_cases [of "''v2''" "''v2''" "''v1''" "[]"]
  by simp

section \<open>The fetch loop\<close>

lemma fetch_loop_step:
  assumes "f b (Suc k) 100 = \<lparr>data_total_commits = Some t, data_commits = Some pg\<rparr>"
  shows "fetch_loop f b k acc rs =
    (if int k * 100 + int (length pg) < t
     then fetch_loop f b (Suc k) (acc @ pg) (rs @ [request b (Suc k)])
     else Some (acc @ pg, rs @ [request b (Suc k)]))"
  by (subst fetch_loop.simps) (simp add: assms Let_def request_def)

text \<open>
  The invariant of the loop against a paging endpoint: entering round \<open>k + 1\<close> the loop
  holds the first \<open>100 * k\<close> commits, and more remain unless this is the first round.
\<close>

lemma fetch_loop_paged:
  assumes srv: "\<And>p. 0 < p \<Longrightarrow> f b p 100 = paged cs b p 100"
  shows "100 * k < length cs \<or> k = 0 \<Longrightarrow>
     fetch_loop f b k (take (100 * k) cs) rs =
       Some (cs, rs @ map (request b) [Suc k ..< Suc (max 1 ((length cs + 99) div 100))])"
proof (induction "length cs - 100 * k" arbitrary: k rs rule: less_induct)
  case less
  let ?N = "max 1 ((length cs + 99) div 100)"
  let ?page = "take 100 (drop (100 * k) cs)"
  have pg: "f b (Suc k) 100 =
      \<lparr>data_total_commits = Some (int (length cs)), data_commits = Some ?page\<rparr>"
    using srv[of "Suc k"] by (simp add: paged_def mult.commute)
  have acc: "take (100 * k) cs @ ?page = take (100 * Suc k) cs"
    by (simp add: take_add[symmetric] add.commute)
  have step: "fetch_loop f b k (take (100 * k) cs) rs =
    (if int k * 100 + int (length ?page) < int (length cs)
     then fetch_loop f b (Suc k) (take (100 * Suc k) cs) (rs @ [request b (Suc k)])
     else Some (take (100 * Suc k) cs, rs @ [request b (Suc k)]))"
    using fetch_loop_step[of f b k "int (length cs)" ?page "take (100 * k) cs" rs] pg
    unfolding acc by blast
  have len: "length ?page = min 100 (length cs - 100 * k)" by simp
  show ?case
  proof (cases "100 * Suc k < length cs")
    case True
    then have cont: "int k * 100 + int (length ?page) < int (length cs)"
      unfolding len by simp
    have lt: "Suc k < Suc ?N" using True by simp
    have ih: "fetch_loop f b (Suc k) (take (100 * Suc k) cs) (rs @ [request b (Suc k)]) =
        Some (cs, (rs @ [request b (Suc k)]) @ map (request b) [Suc (Suc k) ..< Suc ?N])"
      using less(1)[of "Suc k" "rs @ [request b (Suc k)]"] True by simp
    have up: "[Suc k ..< Suc ?N] = Suc k # [Suc (Suc k) ..< Suc ?N]"
      using lt by (simp add: upt_conv_Cons)
    have "fetch_loop f b k (take (100 * k) cs) rs =
        fetch_loop f b (Suc k) (take (100 * Suc k) cs) (rs @ [request b (Suc k)])"
      by (simp only: step cont if_True)
    then show ?thesis
      unfolding up ih by simp
  next
    case False
    then have all: "take (100 * Suc k) cs = cs" by simp
    have stop: "\<not> int k * 100 + int (length ?page) < int (length cs)"
      unfolding len using less(2) False by auto
    have "Suc k = ?N" using less(2) False by auto
    then have up: "[Suc k ..< Suc ?N] = [Suc k]" by simp
    have "fetch_loop f b k (take (100 * k) cs) rs =
        Some (take (100 * Suc k) cs, rs @ [request b (Suc k)])"
      by (simp only: step stop if_False)
    then show ?thesis
      unfolding up all by simp
  qed
qed

lemma fetch_commits_of_paged:
  "fetch_commits (paged cs) latestTag previousTag =
     Some (cs, map (request (tag_name previousTag @ ''...'' @ tag_name latestTag))
                 [1 ..< Suc (max 1 ((length cs + 99) div 100))])"
proof -
  have "fetch_loop (paged cs) (tag_name previousTag @ ''...'' @ tag_name latestTag) 0
          (take (100 * 0) cs) [] =
      Some (cs, [] @ map (request (tag_name previousTag @ ''...'' @ tag_name latestTag))
                        [Suc 0 ..< Suc (max 1 ((length cs + 99) div 100))])"
    by (rule fetch_loop_paged) simp_all
  then show ?thesis
    unfolding fetch_commits_def by simp
qed

text \<open>
  Claim C2, as the code has it. Against an endpoint that declares \<open>T = length cs\<close> on every
  page and returns the commits in pages of 100, the fetcher returns exactly the \<open>T\<close> commits
  in their order, and the requests it issues are those for the pages
  \<open>1, 2, ..., max 1 (ceil (T / 100))\<close>, in this order, each of page size 100. The loop is a
  \<open>do ... while\<close>: it asks for page 1 also when \<open>T = 0\<close>.
\<close>

theorem fetch_commits_paged:
  assumes "\<And>p. 0 < p \<Longrightarrow>
     f (tag_name previousTag @ ''...'' @ tag_name latestTag) p 100 =
       paged cs (tag_name previousTag @ ''...'' @ tag_name latestTag) p 100"
  shows "fetch_commits f latestTag previousTag =
     Some (cs, map (request (tag_name previousTag @ ''...'' @ tag_name latestTag))
                 [1 ..< Suc (max 1 (ceil_div (length cs) 100))])"
proof -
  have c: "ceil_div (length cs) 100 = (length cs + 99) div 100"
    by (simp add: ceil_div_def)
  have "fetch_loop f (tag_name previousTag @ ''...'' @ tag_name latestTag) 0 (take (100 * 0) cs) [] =
      Some (cs, [] @ map (request (tag_name previousTag @ ''...'' @ tag_name latestTag))
                        [Suc 0 ..< Suc (max 1 ((length cs + 99) div 100))])"
    by (rule fetch_loop_paged) (use assms in simp_all)
  then show ?thesis
    unfolding fetch_commits_def c by simp
qed

text \<open>The same theorem at 101 commits: two requests, for the pages 1 and 2.\<close>

theorem fetch_commits_paged_witness:
  "fetch_commits (paged (replicate 101 commit_a)) tag_v2 tag_v1 =
     Some (replicate 101 commit_a, [request ''v1...v2'' 1, request ''v1...v2'' 2])"
  using fetch_commits_paged [of "paged (replicate 101 commit_a)" tag_v1 tag_v2
      "replicate 101 commit_a"]
  by (simp add: ceil_div_def upt_rec tag_v1_def tag_v2_def numeral_2_eq_2)

text \<open>
  For an empty range the endpoint declares \<open>T = 0\<close> and \<open>ceil (0 / 100) = 0\<close>, but the
  fetcher has issued one request.
\<close>

theorem fetch_commits_empty_counterexample:
  "map_option (length \<circ> snd) (fetch_commits (paged []) tag_v2 tag_v1) \<noteq>
     Some (ceil_div (length ([] :: raw_commit list)) 100)"
  by (simp add: fetch_commits_def ceil_div_def fetch_loop.simps paged_def Let_def)

section \<open>The loops as list functions\<close>

lemma notes_loop_eq:
  "notes_loop c a ns bcs =
     bcs @ map (\<lambda>n. \<lparr>bc_sha = rc_sha c, bc_url = rc_html_url c, bc_subject = ast_subject a,
                      bc_author = rc_author_login c, bc_authorUrl = rc_author_html_url c,
                      bc_text = note_text n\<rparr>)
             (filter (\<lambda>n. note_title n = ''BREAKING CHANGE'') ns)"
  by (induction ns arbitrary: bcs) simp_all

lemma parse_loop_eq:
  "parse_loop parser inc cs (ps, bs) =
     (ps @ parsed_commits parser inc cs, bs @ breaking_changes parser cs)"
proof (induction cs arbitrary: ps bs)
  case Nil
  show ?case by (simp add: parsed_commits_def breaking_changes_def)
next
  case (Cons c cs)
  show ?case
  proof (cases "parser (rc_message c)")
    case None
    then show ?thesis
      using Cons.IH[of "ps @ [fallback_commit c]" bs] Cons.IH[of ps bs]
      by (cases inc)
        (simp_all add: parsed_commits_def breaking_changes_def parsed_of_def
            breaking_of_def fallback_commit_def)
  next
    case (Some a)
    then show ?thesis
      by (simp add: Cons.IH parsed_commits_def breaking_changes_def parsed_of_def
            breaking_of_def notes_loop_eq)
  qed
qed

lemma intersection_set: "set (intersection xs ys) = set xs \<inter> set ys"
  by (induction xs ys rule: intersection.induct) auto

lemma intersection_excluded: "(intersection (rule_types r) excl = []) = (\<not> excluded excl r)"
proof -
  have "(intersection (rule_types r) excl = []) =
      (set (intersection (rule_types r) excl) = {})"
    by simp
  also have "\<dots> = (\<not> excluded excl r)"
    unfolding intersection_set excluded_def list_ex_iff by auto
  finally show ?thesis .
qed

lemma types_loop_eq:
  "types_loop rs cps excl (bs, idx) =
     (bs @ join_groups (idx > 0) (map (category_group cps) (rendered_rules rs cps excl)),
      idx + length (rendered_rules rs cps excl))"
proof (induction rs arbitrary: bs idx)
  case Nil
  show ?case by (simp add: rendered_rules_def)
next
  case (Cons r rs)
  show ?case
  proof (cases "excluded excl r \<or> matching r cps = []")
    case True
    then show ?thesis
      using Cons.IH[of bs idx]
      by (auto simp: intersection_excluded rendered_rules_def matching_def Let_def)
  next
    case False
    then have rr: "rendered_rules (r # rs) cps excl = r # rendered_rules rs cps excl"
      by (simp add: rendered_rules_def)
    from False show ?thesis
      unfolding rr
      by (simp add: intersection_excluded Let_def Cons.IH category_group_def matching_def)
  qed
qed

lemma build_blocks_eq:
  "build_blocks title bcs cps excl =
     title_blocks title @ breaking_blocks bcs @
     join_groups (bcs \<noteq> []) (map (category_group cps) (rendered_rules types cps excl))"
  by (simp add: build_blocks_def Let_def types_loop_eq title_blocks_def breaking_blocks_def)

lemma build_payload_eq:
  "payload_blocks (build_payload parser inc r title excl commits) =
     title_blocks title @ breaking_blocks (breaking_changes parser commits) @
     join_groups (breaking_changes parser commits \<noteq> [])
       (map (category_group (listed_commits parser inc r commits))
          (rendered_rules types (listed_commits parser inc r commits) excl))"
  by (simp add: build_payload_def Let_def parse_loop_eq build_blocks_eq listed_commits_def)

lemma build_payload_text: "payload_text (build_payload parser inc r title excl commits) = title"
  by (simp add: build_payload_def Let_def)

lemma matching_rev: "matching r (rev cps) = rev (matching r cps)"
  by (simp add: matching_def rev_filter)

lemma rendered_rules_rev: "rendered_rules rs (rev cps) excl = rendered_rules rs cps excl"
  by (simp add: rendered_rules_def matching_rev)

lemma category_group_rev:
  "category_group (rev cps) r =
     Section (category_text r) # rev (map (\<lambda>c. Section (commit_text c)) (matching r cps))"
  by (simp add: category_group_def matching_rev rev_map)

section \<open>Evaluating the sample data\<close>

lemma sample_lower:
  "toLowerCase ''fix'' = ''fix''" "toLowerCase ''feat'' = ''feat''"
  "toLowerCase ''Feat'' = ''feat''" "toLowerCase ''chore'' = ''chore''"
  by code_simp+

lemmas sample_defs = sample_parser_def commit_a_def commit_b_def commit_c_def commit_d_def
  commit_w_def sample_lower

lemmas render_defs = title_blocks_def breaking_blocks_def breaking_text_def category_group_def
  category_text_def commit_text_def truthy_def rendered_rules_def matching_def excluded_def
  types_def

section \<open>Dividers\<close>

lemma no_divider_title: "Divider \<notin> set (title_blocks t)"
  by (simp add: title_blocks_def)

lemma no_divider_breaking: "Divider \<notin> set (breaking_blocks bcs)"
  by (auto simp: breaking_blocks_def)

lemma well_divided_append: "Divider \<notin> set xs \<Longrightarrow> well_divided (xs @ ys) = well_divided ys"
proof (induction xs)
  case Nil
  show ?case by simp
next
  case (Cons x xs)
  then show ?case by (cases x) simp_all
qed

lemma well_divided_join:
  "set rs \<subseteq> set types \<Longrightarrow> well_divided (join_groups sep (map (category_group cps) rs))"
proof (induction rs arbitrary: sep)
  case Nil
  show ?case by simp
next
  case (Cons r rs)
  let ?secs = "map (\<lambda>c. Section (commit_text c)) (matching r cps)"
  let ?rest = "join_groups True (map (category_group cps) rs)"
  have nd: "Divider \<notin> set ?secs" by auto
  have rest: "well_divided (?secs @ ?rest)"
    using Cons well_divided_append[OF nd] by simp
  have ex: "list_ex (\<lambda>x. category_text r = category_text x) types"
    using Cons.prems by (auto simp: list_ex_iff)
  have cg: "category_group cps r = Section (category_text r) # ?secs"
    by (simp add: category_group_def)
  show ?case
    using rest ex by (cases sep) (simp_all add: cg)
qed

lemma well_divided_nth:
  "well_divided bs \<Longrightarrow> i < length bs \<Longrightarrow> bs ! i = Divider \<Longrightarrow>
     Suc i < length bs \<and> (\<exists>r\<in>set types. bs ! Suc i = Section (category_text r))"
proof (induction bs arbitrary: i)
  case Nil
  then show ?case by simp
next
  case (Cons b bs)
  show ?case
  proof (cases b)
    case Divider
    with Cons.prems Cons.IH show ?thesis
      by (cases i) (auto simp: list_ex_iff split: list.splits block.splits)
  next
    case (Header t)
    with Cons.prems Cons.IH show ?thesis by (cases i) auto
  next
    case (Section t)
    with Cons.prems Cons.IH show ?thesis by (cases i) auto
  qed
qed

lemma hd_join_groups:
  "rs \<noteq> [] \<Longrightarrow> hd (join_groups False (map (category_group cps) rs)) \<noteq> Divider"
  by (cases rs) (simp_all add: category_group_def)

lemma hd_build_blocks:
  "build_blocks title bcs cps excl \<noteq> [] \<Longrightarrow> hd (build_blocks title bcs cps excl) \<noteq> Divider"
proof -
  assume ne: "build_blocks title bcs cps excl \<noteq> []"
  show ?thesis
  proof (cases "title = []")
    case False
    then show ?thesis by (simp add: build_blocks_eq title_blocks_def)
  next
    case True
    note t = this
    show ?thesis
    proof (cases "bcs = []")
      case False
      then show ?thesis using t by (simp add: build_blocks_eq title_blocks_def breaking_blocks_def)
    next
      case True
      then have "rendered_rules types cps excl \<noteq> []"
        using ne t by (auto simp: build_blocks_eq title_blocks_def breaking_blocks_def)
      then show ?thesis
        using t True hd_join_groups[of "rendered_rules types cps excl" cps]
        by (simp add: build_blocks_eq title_blocks_def breaking_blocks_def)
    qed
  qed
qed

lemma well_divided_build_blocks: "well_divided (build_blocks title bcs cps excl)"
proof -
  have "set (rendered_rules types cps excl) \<subseteq> set types"
    by (auto simp: rendered_rules_def)
  then show ?thesis
    unfolding build_blocks_eq
    by (simp add: well_divided_append no_divider_title no_divider_breaking well_divided_join)
qed

section \<open>Parsing and rendering\<close>

text \<open>
  Claim C3. The breaking changes collected by the parse loop are, commit by commit in the
  order of the commits, one record (sha, url, subject, author, authorUrl, text) for each
  note titled exactly \<open>BREAKING CHANGE\<close> of each commit that parses; neither the type of
  the commit nor \<open>excludeTypes\<close> nor \<open>includeInvalidCommits\<close> enters. When the list is not
  empty, the blocks are the optional header, the announcing section, one section per
  breaking change, and only then the category groups.
\<close>

theorem breaking_changes_rendered_first:
  "snd (parse_loop parser inc commits ([], [])) = concat (map (breaking_of parser) commits) \<and>
   payload_blocks (build_payload parser inc r title excl commits) =
     title_blocks title @
     (if concat (map (breaking_of parser) commits) = [] then []
      else Section '':boom: *BREAKING CHANGES*'' #
           map (\<lambda>b. Section (breaking_text b)) (concat (map (breaking_of parser) commits))) @
     join_groups (concat (map (breaking_of parser) commits) \<noteq> [])
       (map (category_group (listed_commits parser inc r commits))
          (rendered_rules types (listed_commits parser inc r commits) excl))"
  using build_payload_eq[of parser inc r title excl commits]
  by (simp add: parse_loop_eq breaking_changes_def breaking_blocks_def)

theorem breaking_changes_rendered_first_witness:
  "snd (parse_loop sample_parser False [commit_c] ([], [])) =
     [\<lparr>bc_sha = ''0123456ccccccccccccccccccccccccccccccccc'',
       bc_url = ''https://github.com/o/r/commit/0123456'', bc_subject = ''drop v1'',
       bc_author = Some ''carol'', bc_authorUrl = None, bc_text = ''removes v1 API''\<rparr>] \<and>
   payload_blocks (build_payload sample_parser False False [] [''chore''] [commit_c]) =
     [Section '':boom: *BREAKING CHANGES*'', Section ''drop v1 *(by @carol)*'']"
  using breaking_changes_rendered_first [where parser = sample_parser and inc = False
      and commits = "[commit_c]" and r = False and title = "[]" and excl = "[''chore'']"]
  by (simp add: breaking_of_def listed_commits_def parsed_commits_def parsed_of_def
      sample_defs render_defs)

lemma parsed_commits_append:
  "parsed_commits p inc (xs @ ys) = parsed_commits p inc xs @ parsed_commits p inc ys"
  by (simp add: parsed_commits_def)

lemma breaking_changes_append:
  "breaking_changes p (xs @ ys) = breaking_changes p xs @ breaking_changes p ys"
  by (simp add: breaking_changes_def)

text \<open>
  Claim C4. A commit whose message the parser rejects adds, when
  \<open>includeInvalidCommits\<close> is true, exactly one commit of type \<open>other\<close> whose subject is
  the whole message and which carries no notes, at its place in the list, and no breaking
  change; when \<open>includeInvalidCommits\<close> is false it adds nothing, and the payload is the
  payload of the run without this commit. The loop returns its two lists in both cases: the
  rejection is not an error of the run.
\<close>

theorem invalid_commit_fallback_or_drop:
  assumes "parser (rc_message c) = None"
  shows "parse_loop parser inc (xs @ c # ys) ([], []) =
      (parsed_commits parser inc xs @
         (if inc then
            [\<lparr>pc_type = ''other'', pc_scope = None, pc_subject = rc_message c, pc_notes = None,
              pc_sha = rc_sha c, pc_url = rc_html_url c, pc_author = rc_author_login c,
              pc_authorUrl = rc_author_html_url c\<rparr>]
          else []) @
         parsed_commits parser inc ys,
       breaking_changes parser xs @ breaking_changes parser ys) \<and>
    build_payload parser False r title excl (xs @ c # ys) =
      build_payload parser False r title excl (xs @ ys)"
proof -
  have p: "parsed_commits parser inc (c # ys) =
      (if inc then [fallback_commit c] else []) @ parsed_commits parser inc ys" for inc
    using assms by (simp add: parsed_commits_def parsed_of_def)
  have b: "breaking_changes parser (c # ys) = breaking_changes parser ys"
    using assms by (simp add: breaking_changes_def breaking_of_def)
  have 1: "parse_loop parser inc (xs @ c # ys) ([], []) =
      (parsed_commits parser inc xs @ (if inc then [fallback_commit c] else []) @
         parsed_commits parser inc ys,
       breaking_changes parser xs @ breaking_changes parser ys)" for inc
    by (simp add: parse_loop_eq parsed_commits_append breaking_changes_append p b)
  have 2: "build_payload parser False r title excl (xs @ c # ys) =
      build_payload parser False r title excl (xs @ ys)"
    unfolding build_payload_def 1 by (simp add: parse_loop_eq parsed_commits_append breaking_changes_append)
  show ?thesis using 1[of inc] 2 by (simp add: fallback_commit_def)
qed

theorem invalid_commit_fallback_or_drop_witness:
  "sample_parser (rc_message commit_w) = None \<and>
   map pc_type (fst (parse_loop sample_parser True [commit_a, commit_w, commit_b] ([], []))) =
     [''fix'', ''other'', ''feat''] \<and>
   map pc_subject (fst (parse_loop sample_parser True [commit_a, commit_w, commit_b] ([], []))) =
     [''a'', ''wip'', ''b''] \<and>
   map pc_notes (fst (parse_loop sample_parser True [commit_a, commit_w, commit_b] ([], []))) =
     [Some [], None, Some []] \<and>
   snd (parse_loop sample_parser True [commit_a, commit_w, commit_b] ([], [])) = [] \<and>
   map pc_subject (fst (parse_loop sample_parser False [commit_a, commit_w, commit_b] ([], []))) =
     [''a'', ''b'']"
proof -
  have h: "sample_parser (rc_message commit_w) = None"
    by (simp add: sample_parser_def commit_w_def)
  show ?thesis
    using h
      invalid_commit_fallback_or_drop [where parser = sample_parser and c = commit_w
        and inc = True and xs = "[commit_a]" and ys = "[commit_b]"]
      invalid_commit_fallback_or_drop [where parser = sample_parser and c = commit_w
        and inc = False and xs = "[commit_a]" and ys = "[commit_b]"]
    by (simp add: parsed_commits_def parsed_of_def breaking_changes_def breaking_of_def
        sample_defs)
qed

text \<open>
  Claim C5. With \<open>reverseOrder\<close> set, the commits listed under each rendered category are
  the same as without it, in reverse order; the rendered categories and their order are the
  same, and the header and the breaking-changes sections do not depend on \<open>reverseOrder\<close>.
\<close>

theorem reverse_order_keeps_breaking_changes:
  "payload_blocks (build_payload parser inc reverseOrder title excl commits) =
     title_blocks title @ breaking_blocks (breaking_changes parser commits) @
     join_groups (breaking_changes parser commits \<noteq> [])
       (map (\<lambda>r. Section (category_text r) #
                 (if reverseOrder then rev else id)
                   (map (\<lambda>c. Section (commit_text c))
                      (matching r (parsed_commits parser inc commits))))
          (rendered_rules types (parsed_commits parser inc commits) excl))"
proof (cases reverseOrder)
  case True
  have "category_group (rev (parsed_commits parser inc commits)) =
      (\<lambda>r. Section (category_text r) #
         rev (map (\<lambda>c. Section (commit_text c)) (matching r (parsed_commits parser inc commits))))"
    by (rule ext) (rule category_group_rev)
  then show ?thesis
    using True by (simp add: build_payload_eq listed_commits_def rendered_rules_rev)
next
  case False
  have "category_group (parsed_commits parser inc commits) =
      (\<lambda>r. Section (category_text r) #
         map (\<lambda>c. Section (commit_text c)) (matching r (parsed_commits parser inc commits)))"
    by (rule ext) (simp add: category_group_def)
  then show ?thesis
    using False by (simp add: build_payload_eq listed_commits_def)
qed

theorem reverse_order_keeps_breaking_changes_witness:
  "payload_blocks (build_payload sample_parser False True [] [[]]
      [commit_c, commit_b, commit_d]) =
     [Section '':boom: *BREAKING CHANGES*'', Section ''drop v1 *(by @carol)*'', Divider,
      Section '':sparkles: *New Features*'', Section ''*api*: d by dave 89abcde'',
      Section ''b by bob def5678'', Divider,
      Section '':wrench: *Chores*'', Section ''drop v1 by carol 0123456''] \<and>
   payload_blocks (build_payload sample_parser False False [] [[]]
      [commit_c, commit_b, commit_d]) =
     [Section '':boom: *BREAKING CHANGES*'', Section ''drop v1 *(by @carol)*'', Divider,
      Section '':sparkles: *New Features*'', Section ''b by bob def5678'',
      Section ''*api*: d by dave 89abcde'', Divider,
      Section '':wrench: *Chores*'', Section ''drop v1 by carol 0123456'']"
  using
    reverse_order_keeps_breaking_changes [where parser = sample_parser and inc = False
      and reverseOrder = True and title = "[]" and excl = "[[]]"
      and commits = "[commit_c, commit_b, commit_d]"]
    reverse_order_keeps_breaking_changes [where parser = sample_parser and inc = False
      and reverseOrder = False and title = "[]" and excl = "[[]]"
      and commits = "[commit_c, commit_b, commit_d]"]
  by (simp add: breaking_changes_def breaking_of_def parsed_commits_def parsed_of_def
      sample_defs render_defs)

section \<open>Exclusion\<close>

lemma distinct_concat_unique:
  "distinct (concat (map f xs)) \<Longrightarrow> x \<in> set xs \<Longrightarrow> y \<in> set xs \<Longrightarrow>
   t \<in> set (f x) \<Longrightarrow> t \<in> set (f y) \<Longrightarrow> x = y"
  by (induction xs) auto

lemma distinct_aliases: "distinct (concat (map rule_types types))"
  by (simp add: types_def)

lemma types_alias_unique:
  assumes "r \<in> set types" "r' \<in> set types" "t \<in> set (rule_types r)" "t \<in> set (rule_types r')"
  shows "r = r'"
  using distinct_concat_unique[OF distinct_aliases assms] .

lemma subseq_rendered: "subseq (rendered_rules rs cps excl) rs"
  by (simp add: rendered_rules_def)

text \<open>
  Claim C6. The rendered categories are a subsequence of the table \<open>types\<close>, none of them
  is a rule with an alias among the excluded types, and a commit whose type is an alias of
  an excluded rule is listed under no rendered category. The breaking-changes sections are
  those of all breaking changes collected, whatever is excluded.
\<close>

theorem excluded_types_not_rendered:
  assumes "cps = listed_commits parser inc r commits"
      and "rs = rendered_rules types cps excl"
  shows "subseq rs types \<and>
    (\<forall>x\<in>set rs. \<not> excluded excl x) \<and>
    payload_blocks (build_payload parser inc r title excl commits) =
      title_blocks title @ breaking_blocks (breaking_changes parser commits) @
      join_groups (breaking_changes parser commits \<noteq> []) (map (category_group cps) rs) \<and>
    (\<forall>c\<in>set cps. \<forall>x\<in>set types.
        excluded excl x \<and> pc_type c \<in> set (rule_types x) \<longrightarrow>
        (\<forall>y\<in>set rs. c \<notin> set (matching y cps)))"
proof -
  have 1: "subseq rs types" unfolding assms by (rule subseq_rendered)
  have 2: "\<forall>x\<in>set rs. \<not> excluded excl x" unfolding assms(2) by (simp add: rendered_rules_def)
  have 3: "payload_blocks (build_payload parser inc r title excl commits) =
      title_blocks title @ breaking_blocks (breaking_changes parser commits) @
      join_groups (breaking_changes parser commits \<noteq> []) (map (category_group cps) rs)"
    unfolding assms by (rule build_payload_eq)
  have 4: "\<forall>c\<in>set cps. \<forall>x\<in>set types.
        excluded excl x \<and> pc_type c \<in> set (rule_types x) \<longrightarrow>
        (\<forall>y\<in>set rs. c \<notin> set (matching y cps))"
  proof (intro ballI impI)
    fix c x y
    assume c: "c \<in> set cps" and x: "x \<in> set types" and ex: "excluded excl x \<and> pc_type c \<in> set (rule_types x)"
      and y: "y \<in> set rs"
    from y have yt: "y \<in> set types" and ny: "\<not> excluded excl y"
      unfolding assms(2) by (simp_all add: rendered_rules_def)
    show "c \<notin> set (matching y cps)"
    proof
      assume "c \<in> set (matching y cps)"
      then have "pc_type c \<in> set (rule_types y)" by (simp add: matching_def)
      with ex x yt have "x = y" by (auto intro: types_alias_unique)
      with ex ny show False by simp
    qed
  qed
  show ?thesis
    by (intro conjI) (rule 1, rule 2, rule 3, rule 4)
qed

theorem excluded_types_not_rendered_witness:
  "map trim (split_comma ''chore'') = [''chore''] \<and>
   rendered_rules types
     (listed_commits sample_parser False False [commit_c, commit_b, commit_w]) [''chore''] =
     [\<lparr>rule_types = [''feat'', ''feature''], rule_header = ''New Features'',
       rule_icon = '':sparkles:'', rule_relIssuePrefix = None\<rparr>] \<and>
   payload_blocks (build_payload sample_parser False False ''Release''
      (map trim (split_comma ''chore'')) [commit_c, commit_b, commit_w]) =
     [Header ''Release'', Section '':boom: *BREAKING CHANGES*'',
      Section ''drop v1 *(by @carol)*'', Divider,
      Section '':sparkles: *New Features*'', Section ''b by bob def5678'']"
proof -
  have e: "map trim (split_comma ''chore'') = [''chore'']"
    by (simp add: trim_def is_space_def)
  have rr: "rendered_rules types
     (listed_commits sample_parser False False [commit_c, commit_b, commit_w]) [''chore''] =
     [\<lparr>rule_types = [''feat'', ''feature''], rule_header = ''New Features'',
       rule_icon = '':sparkles:'', rule_relIssuePrefix = None\<rparr>]"
    by (simp add: listed_commits_def parsed_commits_def parsed_of_def sample_defs
        rendered_rules_def matching_def excluded_def types_def)
  show ?thesis
    using excluded_types_not_rendered [OF refl refl, where parser = sample_parser
        and inc = False and r = False and excl = "[''chore'']"
        and commits = "[commit_c, commit_b, commit_w]" and title = "''Release''"]
    unfolding e rr
    by (simp add: breaking_changes_def breaking_of_def listed_commits_def parsed_commits_def
        parsed_of_def sample_defs title_blocks_def breaking_blocks_def breaking_text_def
        category_group_def category_text_def commit_text_def truthy_def matching_def)
qed

text \<open>
  Claim C10. In the blocks built, a divider is never the first block and never the last, it
  is directly followed by the title section of a category of the table, and so no two
  dividers are adjacent.
\<close>

theorem dividers_separate_groups:
  assumes "bs = build_blocks title bcs cps excl"
  shows "(bs \<noteq> [] \<longrightarrow> hd bs \<noteq> Divider \<and> last bs \<noteq> Divider) \<and>
    (\<forall>i < length bs. bs ! i = Divider \<longrightarrow>
       0 < i \<and> Suc i < length bs \<and> bs ! Suc i \<noteq> Divider \<and>
       (\<exists>r\<in>set types. bs ! Suc i = Section (category_text r)))"
proof -
  have wd: "well_divided bs" using assms well_divided_build_blocks by simp
  have h: "bs \<noteq> [] \<Longrightarrow> hd bs \<noteq> Divider" using assms hd_build_blocks by simp
  have nth: "\<And>i. i < length bs \<Longrightarrow> bs ! i = Divider \<Longrightarrow>
      Suc i < length bs \<and> (\<exists>r\<in>set types. bs ! Suc i = Section (category_text r))"
    using well_divided_nth[OF wd] by blast
  have l: "bs \<noteq> [] \<Longrightarrow> last bs \<noteq> Divider"
  proof
    assume ne: "bs \<noteq> []" and "last bs = Divider"
    then have "bs ! (length bs - 1) = Divider" by (simp add: last_conv_nth)
    with nth[of "length bs - 1"] ne show False by simp
  qed
  have pos: "\<And>i. i < length bs \<Longrightarrow> bs ! i = Divider \<Longrightarrow> 0 < i"
  proof (rule ccontr)
    fix i assume "i < length bs" "bs ! i = Divider" "\<not> 0 < i"
    then have "bs \<noteq> []" "hd bs = Divider" by (auto simp: hd_conv_nth)
    with h show False by simp
  qed
  show ?thesis
    using h l nth pos by (metis block.distinct(5))
qed

theorem dividers_separate_groups_witness:
  "build_blocks [] (breaking_changes sample_parser [commit_c, commit_b])
     (parsed_commits sample_parser False [commit_c, commit_b]) [[]] =
     [Section '':boom: *BREAKING CHANGES*'', Section ''drop v1 *(by @carol)*'', Divider,
      Section '':sparkles: *New Features*'', Section ''b by bob def5678'', Divider,
      Section '':wrench: *Chores*'', Section ''drop v1 by carol 0123456''] \<and>
   hd (build_blocks [] (breaking_changes sample_parser [commit_c, commit_b])
     (parsed_commits sample_parser False [commit_c, commit_b]) [[]]) \<noteq> Divider \<and>
   last (build_blocks [] (breaking_changes sample_parser [commit_c, commit_b])
     (parsed_commits sample_parser False [commit_c, commit_b]) [[]]) \<noteq> Divider"
proof -
  have b: "build_blocks [] (breaking_changes sample_parser [commit_c, commit_b])
     (parsed_commits sample_parser False [commit_c, commit_b]) [[]] =
     [Section '':boom: *BREAKING CHANGES*'', Section ''drop v1 *(by @carol)*'', Divider,
      Section '':sparkles: *New Features*'', Section ''b by bob def5678'', Divider,
      Section '':wrench: *Chores*'', Section ''drop v1 by carol 0123456'']"
    by (simp add: build_blocks_def Let_def breaking_changes_def breaking_of_def
        parsed_commits_def parsed_of_def sample_defs breaking_text_def category_text_def
        commit_text_def truthy_def types_def)
  show ?thesis
    using dividers_separate_groups [OF refl, where title = "[]"
        and bcs = "breaking_changes sample_parser [commit_c, commit_b]"
        and cps = "parsed_commits sample_parser False [commit_c, commit_b]"
        and excl = "[[]]"]
    unfolding b by simp
qed

section \<open>The whole run\<close>

lemma resolve_range_not_no_commits:
  "resolve_range tag fromTag toTag tagsRaw \<noteq> Inl NoCommitsInRange"
  by (simp add: resolve_range_def split: option.splits)

lemma parsed_commits_all_invalid:
  "\<forall>c\<in>set cs. parser (rc_message c) = None \<Longrightarrow> parsed_commits parser False cs = []"
  by (induction cs) (simp_all add: parsed_commits_def parsed_of_def)

lemma breaking_changes_all_invalid:
  "\<forall>c\<in>set cs. parser (rc_message c) = None \<Longrightarrow> breaking_changes parser cs = []"
  by (induction cs) (simp_all add: breaking_changes_def breaking_of_def)

lemma build_payload_all_invalid:
  assumes "\<forall>c\<in>set cs. parser (rc_message c) = None"
  shows "build_payload parser False r title excl cs =
     \<lparr>payload_text = title, payload_blocks = title_blocks title\<rparr>"
proof -
  have l: "listed_commits parser False r cs = []"
    using parsed_commits_all_invalid[OF assms] by (simp add: listed_commits_def)
  have "payload_blocks (build_payload parser False r title excl cs) = title_blocks title"
    unfolding build_payload_eq l breaking_changes_all_invalid[OF assms]
    by (simp add: breaking_blocks_def rendered_rules_def matching_def)
  then show ?thesis
    using build_payload_text[of parser False r title excl cs]
    by (cases "build_payload parser False r title excl cs") simp
qed

lemma sample_range:
  "resolve_range (in_tag sample_inputs) (in_fromTag sample_inputs) (in_toTag sample_inputs)
     (env_tags (sample_env cs)) = Inr (tag_v2, tag_v1)"
  by (simp add: sample_inputs_def sample_env_def resolve_range_def tag_v1_def tag_v2_def)

lemma sample_fetch:
  "length cs \<le> 100 \<Longrightarrow>
   fetch_commits (env_compareCommitsWithBasehead (sample_env cs)) tag_v2 tag_v1 =
     Some (cs, [request ''v1...v2'' 1])"
proof -
  assume "length cs \<le> 100"
  then have "max 1 ((length cs + 99) div 100) = 1" by (simp add: max_def) arith
  then show ?thesis
    by (simp add: sample_env_def fetch_commits_of_paged tag_v1_def tag_v2_def)
qed

lemma main_sample_wip:
  "main sample_inputs (sample_env [commit_w]) =
     Some (Output \<lparr>payload_text = ''Release'', payload_blocks = [Header ''Release'']\<rparr>)"
  using sample_fetch[of "[commit_w]"]
  by (simp add: main_def Let_def sample_range)
    (simp add: sample_inputs_def sample_env_def build_payload_def Let_def commit_w_def
       sample_parser_def build_blocks_def types_def trim_def)

text \<open>
  Claim C7. The run fails with \<open>NoCommitsInRange\<close> exactly when the range resolves and
  the fetch loop returns with an empty list of commits. When the loop returns commits and the
  parser rejects every one of them, with \<open>includeInvalidCommits\<close> false, the run does not
  fail there: its payload has the title as text and, as blocks, the optional header alone
  (no breaking-changes and no category section), and it is set as the output or posted.
\<close>

theorem no_commits_in_range_iff_empty:
  "(main i e = Some (Failed NoCommitsInRange)) =
     (\<exists>latestTag previousTag reqs.
        resolve_range (in_tag i) (in_fromTag i) (in_toTag i) (env_tags e) =
          Inr (latestTag, previousTag) \<and>
        fetch_commits (env_compareCommitsWithBasehead e) latestTag previousTag = Some ([], reqs)) \<and>
   (\<forall>latestTag previousTag commits reqs.
      resolve_range (in_tag i) (in_fromTag i) (in_toTag i) (env_tags e) =
        Inr (latestTag, previousTag) \<and>
      fetch_commits (env_compareCommitsWithBasehead e) latestTag previousTag =
        Some (commits, reqs) \<and>
      commits \<noteq> [] \<and> \<not> in_includeInvalidCommits i \<and>
      (\<forall>c\<in>set commits. env_parser e (rc_message c) = None) \<longrightarrow>
      main i e = Some (Output \<lparr>payload_text = in_title i,
                                payload_blocks = title_blocks (in_title i)\<rparr>) \<or>
      main i e = Some (deliver (env_postMessage e) (in_slackBotToken i)
                         (map trim (split_comma (in_slackChannelId i)))
                         \<lparr>payload_text = in_title i,
                          payload_blocks = title_blocks (in_title i)\<rparr>))"
proof (intro conjI allI impI)
  show "(main i e = Some (Failed NoCommitsInRange)) =
     (\<exists>latestTag previousTag reqs.
        resolve_range (in_tag i) (in_fromTag i) (in_toTag i) (env_tags e) =
          Inr (latestTag, previousTag) \<and>
        fetch_commits (env_compareCommitsWithBasehead e) latestTag previousTag = Some ([], reqs))"
    using resolve_range_not_no_commits[of "in_tag i" "in_fromTag i" "in_toTag i" "env_tags e"]
    by (auto simp: main_def Let_def deliver_def split: sum.splits option.splits prod.splits)
next
  fix latestTag previousTag commits reqs
  assume a: "resolve_range (in_tag i) (in_fromTag i) (in_toTag i) (env_tags e) =
        Inr (latestTag, previousTag) \<and>
      fetch_commits (env_compareCommitsWithBasehead e) latestTag previousTag =
        Some (commits, reqs) \<and>
      commits \<noteq> [] \<and> \<not> in_includeInvalidCommits i \<and>
      (\<forall>c\<in>set commits. env_parser e (rc_message c) = None)"
  then have inc: "in_includeInvalidCommits i = False"
    and r: "resolve_range (in_tag i) (in_fromTag i) (in_toTag i) (env_tags e) =
        Inr (latestTag, previousTag)"
    and f: "fetch_commits (env_compareCommitsWithBasehead e) latestTag previousTag =
        Some (commits, reqs)"
    and ne: "commits \<noteq> []"
    and inv: "\<forall>c\<in>set commits. env_parser e (rc_message c) = None"
    by simp_all
  have p: "build_payload (env_parser e) False (in_reverseOrder i)
        (in_title i) (map trim (split_comma (in_excludeTypes i))) commits =
      \<lparr>payload_text = in_title i, payload_blocks = title_blocks (in_title i)\<rparr>"
    using build_payload_all_invalid[OF inv] .
  show "main i e = Some (Output \<lparr>payload_text = in_title i,
                                payload_blocks = title_blocks (in_title i)\<rparr>) \<or>
      main i e = Some (deliver (env_postMessage e) (in_slackBotToken i)
                         (map trim (split_comma (in_slackChannelId i)))
                         \<lparr>payload_text = in_title i,
                          payload_blocks = title_blocks (in_title i)\<rparr>)"
    using ne by (simp add: main_def Let_def r f inc p)
qed

theorem no_commits_in_range_iff_empty_witness:
  "resolve_range (in_tag sample_inputs) (in_fromTag sample_inputs) (in_toTag sample_inputs)
     (env_tags (sample_env [commit_w])) = Inr (tag_v2, tag_v1) \<and>
   fetch_commits (env_compareCommitsWithBasehead (sample_env [commit_w])) tag_v2 tag_v1 =
     Some ([commit_w], [request ''v1...v2'' 1]) \<and>
   env_parser (sample_env [commit_w]) (rc_message commit_w) = None \<and>
   \<not> in_includeInvalidCommits sample_inputs \<and>
   main sample_inputs (sample_env [commit_w]) =
     Some (Output \<lparr>payload_text = ''Release'', payload_blocks = [Header ''Release'']\<rparr>) \<and>
   main sample_inputs (sample_env [commit_w]) \<noteq> Some (Failed NoCommitsInRange) \<and>
   main sample_inputs (sample_env []) = Some (Failed NoCommitsInRange)"
proof -
  have r: "resolve_range (in_tag sample_inputs) (in_fromTag sample_inputs)
      (in_toTag sample_inputs) (env_tags (sample_env [commit_w])) = Inr (tag_v2, tag_v1)"
    by (rule sample_range)
  have f: "fetch_commits (env_compareCommitsWithBasehead (sample_env [commit_w])) tag_v2 tag_v1 =
      Some ([commit_w], [request ''v1...v2'' 1])"
    by (rule sample_fetch) simp
  have p: "env_parser (sample_env [commit_w]) (rc_message commit_w) = None"
    by (simp add: sample_env_def sample_parser_def commit_w_def)
  have n: "\<not> in_includeInvalidCommits sample_inputs"
    by (simp add: sample_inputs_def)
  have 1: "main sample_inputs (sample_env []) = Some (Failed NoCommitsInRange)"
    using no_commits_in_range_iff_empty [of sample_inputs "sample_env []"]
      sample_range [of "[]"] sample_fetch [of "[]"]
    by simp
  have 2: "main sample_inputs (sample_env [commit_w]) \<noteq> Some (Failed NoCommitsInRange)"
    using no_commits_in_range_iff_empty [of sample_inputs "sample_env [commit_w]"] r f
    by simp
  show ?thesis
    using r f p n 1 2 main_sample_wip by simp
qed

lemma split_comma_nonempty: "split_comma s \<noteq> []"
  by (induction s) (auto split: list.splits)

lemma channel_ids_nonempty: "0 < length (map trim (split_comma s))"
  by (simp add: split_comma_nonempty)

text \<open>
  Claim C1, evaluated where the code departs from it. \<open>''.split(',')\<close> is \<open>['']\<close>, so
  the list of channel ids is never empty and the test \<open>slackChannelIds.length > 0\<close> of line
  257 always holds. With a bot token and an empty \<open>slackChannelId\<close> input the run posts the
  payload to the channel \<open>''\<close> and does not set the output \<open>payload\<close>.
\<close>

theorem empty_channel_id_still_delivers:
  "main (sample_inputs\<lparr>in_slackBotToken := ''xoxb-1'', in_slackChannelId := []\<rparr>)
      (sample_env [commit_a]) =
     Some (Delivered
       [([], \<lparr>payload_text = ''Release'',
              payload_blocks = [Header ''Release'', Section '':bug: *Bug Fixes*'',
                                Section ''a by alice abc1234'']\<rparr>)] [])"
  by (simp add: main_def Let_def sample_inputs_def sample_env_def resolve_range_def
      fetch_commits_of_paged trim_def deliver_def build_payload_def sample_parser_def
      commit_a_def toLowerCase_def lower_char_def build_blocks_def types_def
      category_text_def commit_text_def truthy_def)

text \<open>
  Claim C8. Two commits, \<open>fix: a\<close> with a sha starting \<open>abc1234\<close> and then \<open>feat: b\<close>
  with a sha starting \<open>def5678\<close>, both with an author, an empty \<open>excludeTypes\<close> input,
  \<open>reverseOrder\<close> false and the title \<open>Release\<close> give exactly these six blocks: the
  header, the New Features title, the line of commit b, one divider, the Bug Fixes title and
  the line of commit a. The parser is assumed to parse the two messages as the
  conventional-commits grammar says.
\<close>

theorem release_example:
  assumes "parser ''fix: a'' =
             Some \<lparr>ast_type = ''fix'', ast_scope = None, ast_subject = ''a'', ast_notes = []\<rparr>"
      and "parser ''feat: b'' =
             Some \<lparr>ast_type = ''feat'', ast_scope = None, ast_subject = ''b'', ast_notes = []\<rparr>"
      and "rc_message ca = ''fix: a''" and "rc_sha ca = ''abc1234'' @ sa"
      and "rc_author_login ca = Some aa" and "aa \<noteq> []"
      and "rc_message cb = ''feat: b''" and "rc_sha cb = ''def5678'' @ sb"
      and "rc_author_login cb = Some ab" and "ab \<noteq> []"
  shows "build_payload parser inc False ''Release'' (map trim (split_comma [])) [ca, cb] =
     \<lparr>payload_text = ''Release'',
      payload_blocks =
        [Header ''Release'',
         Section '':sparkles: *New Features*'',
         Section (''b by '' @ ab @ '' def5678''),
         Divider,
         Section '':bug: *Bug Fixes*'',
         Section (''a by '' @ aa @ '' abc1234'')]\<rparr>"
  using assms
  by (simp add: build_payload_def Let_def trim_def toLowerCase_def lower_char_def
      build_blocks_def types_def category_text_def commit_text_def truthy_def)

theorem release_example_witness:
  "build_payload sample_parser False False ''Release'' (map trim (split_comma []))
      [commit_a, commit_b] =
     \<lparr>payload_text = ''Release'',
      payload_blocks =
        [Header ''Release'',
         Section '':sparkles: *New Features*'',
         Section ''b by bob def5678'',
         Divider,
         Section '':bug: *Bug Fixes*'',
         Section ''a by alice abc1234'']\<rparr>"
  using release_example [of sample_parser commit_a "''aaaaaaaaaaaaaaaaaaaaaaaaaaaaaaaaa''" "''alice''" commit_b
      "''bbbbbbbbbbbbbbbbbbbbbbbbbbbbbbbbb''" "''bob''" False]
  by (simp add: sample_parser_def commit_a_def commit_b_def)

end
